theory Spec2Isabelle
  imports Main "HOL-Library.Sublist"
begin

section \<open>Data model (app.py, lines 39--89)\<close>

text \<open>
  The four tables of the application.  Primary keys are SQLite row ids (naturals);
  strings are Python \<open>str\<close> values.  \<open>country\<close> is the one nullable column whose
  emptiness the code inspects (line 251), so it keeps its \<open>NULL\<close> as \<open>None\<close>.
\<close>

record user =
  user_id :: nat
  username :: string
  password_hash :: string

record category =
  category_id :: nat
  category_name :: string

record article =
  article_id :: nat
  title :: string
  content :: string
  author :: string
  publish_date :: nat
  country :: "string option"
  download_link :: string
  article_type :: string
  source :: string

text \<open>
  \<open>article_categories\<close> is the association table: rows \<open>(article_id, category_id)\<close>.
\<close>

record database =
  user_table :: "user list"
  category_table :: "category list"
  article_table :: "article list"
  article_categories :: "(nat \<times> nat) list"

text \<open>
  The exceptions a handler can raise: \<open>NotFound\<close> from \<open>get_or_404\<close>,
  \<open>BadRequestKeyError\<close> from \<open>request.form[key]\<close> on a missing key,
  \<open>AttributeError\<close> from reading an attribute a class does not define,
  \<open>IntegrityError\<close> from a violated unique constraint, \<open>ValueError\<close> from
  \<open>str.split\<close> with an empty separator.
\<close>

datatype error = NotFound | BadRequestKeyError | AttributeError | IntegrityError | ValueError

section \<open>Requests, responses and the environment\<close>

datatype http_method = GET | POST

text \<open>
  \<open>form\<close> is the submitted multi-dict in submission order; \<open>session_user_id\<close> is the
  user id held by the session cookie; \<open>csrf_valid\<close> says whether the CSRF token that
  \<open>FlaskForm\<close> checks is present and valid.
\<close>

record request =
  req_method :: http_method
  form :: "(string \<times> string) list"
  session_user_id :: "nat option"
  csrf_valid :: bool

text \<open>
  What the application takes from libraries and from the moment of the request: the
  two werkzeug password functions (the generator with the salt it draws at this request),
  the Markdown renderer, the pycountry names, the clock, and the conversion SQLite
  applies when an integer key is compared with a submitted text value.
\<close>

record env =
  generate_password_hash :: "string \<Rightarrow> string"
  check_password_hash :: "string \<Rightarrow> string \<Rightarrow> bool"
  markdown :: "string \<Rightarrow> string"
  country_names :: "string list"
  utcnow :: nat
  id_of_text :: "string \<Rightarrow> nat option"

datatype endpoint = Home | Login | ArticlePage nat

datatype field_error = Required | NotEqualTo string | CsrfFailed | Message string

datatype page =
    RegisterHtml "(string \<times> field_error) list"
  | LoginHtml
  | HomeHtml "(article \<times> string) list"
  | PublishHtml "category list" "string list" "string list"
  | ArticleHtml article string
  | EditHtml article "string list" "string list" "string list"
  | SourceArticlesHtml "article list" string

datatype body = Redirect endpoint | Render page | Plain string nat

text \<open>
  The result of a handler that returns: the response body, the messages flashed
  (category, text), the database after the request and the session after it.
\<close>

record outcome =
  body :: body
  flashed :: "(string \<times> string) list"
  db_after :: database
  session_after :: "nat option"

definition respond :: "database \<Rightarrow> request \<Rightarrow> body \<Rightarrow> (string \<times> string) list \<Rightarrow> outcome" where
  "respond db req b fl =
     \<lparr>body = b, flashed = fl, db_after = db, session_after = session_user_id req\<rparr>"

definition flash :: "string \<Rightarrow> string \<times> string" where
  "flash msg = (''message'', msg)"

section \<open>Python strings and the form multi-dict\<close>

fun str_join :: "string \<Rightarrow> string list \<Rightarrow> string" where
  "str_join sep [] = []"
| "str_join sep [x] = x"
| "str_join sep (x # y # ys) = x @ sep @ str_join sep (y # ys)"

text \<open>
  \<open>str.split(sep)\<close> scans from the left and cuts at each occurrence of \<open>sep\<close>;
  \<open>acc\<close> holds the current piece, reversed.
\<close>

function split_from :: "string \<Rightarrow> string \<Rightarrow> string \<Rightarrow> string list" where
  "split_from sep acc [] = [rev acc]"
| "split_from sep acc (c # cs) =
     (if sep \<noteq> [] \<and> prefix sep (c # cs)
      then rev acc # split_from sep [] (drop (length sep) (c # cs))
      else split_from sep (c # acc) cs)"
  by pat_completeness auto
termination
  by (relation "measure (\<lambda>(sep, acc, s). length s)") auto

definition str_split :: "string \<Rightarrow> string \<Rightarrow> error + string list" where
  "str_split sep s = (if sep = [] then Inl ValueError else Inr (split_from sep [] s))"

text \<open>
  The characters \<open>str.strip()\<close> removes, among the code points below 256, which are
  the ones a \<open>char\<close> holds: tab to carriage return, the four separators 28 to 31, the
  space, next line (133) and the no-break space (160).
\<close>

definition is_space :: "char \<Rightarrow> bool" where
  "is_space c =
     (let n = (of_char c :: nat)
      in (9 \<le> n \<and> n \<le> 13) \<or> (28 \<le> n \<and> n \<le> 32) \<or> n = 133 \<or> n = 160)"

definition str_strip :: "string \<Rightarrow> string" where
  "str_strip s = rev (dropWhile is_space (rev (dropWhile is_space s)))"

definition form_get :: "(string \<times> string) list \<Rightarrow> string \<Rightarrow> error + string" where
  "form_get f k = (case map_of f k of None \<Rightarrow> Inl BadRequestKeyError | Some v \<Rightarrow> Inr v)"

definition getlist :: "(string \<times> string) list \<Rightarrow> string \<Rightarrow> string list" where
  "getlist f k = map snd (filter (\<lambda>kv. fst kv = k) f)"

section \<open>Queries\<close>

definition load_user :: "database \<Rightarrow> nat \<Rightarrow> user option" where
  "load_user db uid = find (\<lambda>u. user_id u = uid) (user_table db)"

definition current_user :: "database \<Rightarrow> request \<Rightarrow> user option" where
  "current_user db req =
     (case session_user_id req of None \<Rightarrow> None | Some uid \<Rightarrow> load_user db uid)"

definition user_by_name :: "database \<Rightarrow> string \<Rightarrow> user option" where
  "user_by_name db name = find (\<lambda>u. username u = name) (user_table db)"

definition get_or_404 :: "database \<Rightarrow> nat \<Rightarrow> error + article" where
  "get_or_404 db aid =
     (case find (\<lambda>a. article_id a = aid) (article_table db) of
        None \<Rightarrow> Inl NotFound
      | Some a \<Rightarrow> Inr a)"

definition categories_of :: "database \<Rightarrow> nat \<Rightarrow> category list" where
  "categories_of db aid =
     filter (\<lambda>c. (aid, category_id c) \<in> set (article_categories db)) (category_table db)"

text \<open>
  SQLite gives a new row the largest id of the table plus one, and 1 in an empty table.
\<close>

definition next_id :: "nat list \<Rightarrow> nat" where
  "next_id ids = Suc (foldr max ids 0)"

section \<open>Registration form (lines 92--105)\<close>

text \<open>
  The form object is filled from \<open>request.form\<close> only when the request is a
  submission (POST); otherwise every field keeps its default, no data.  A field takes
  the first value submitted under its name.
\<close>

definition field_data :: "request \<Rightarrow> string \<Rightarrow> string option" where
  "field_data req name = (if req_method req = POST then map_of (form req) name else None)"

text \<open>
  \<open>DataRequired\<close>: the field's data is truthy and, stripped, still non-empty.
\<close>

definition data_required :: "string option \<Rightarrow> bool" where
  "data_required d = (case d of None \<Rightarrow> False | Some s \<Rightarrow> s \<noteq> [] \<and> str_strip s \<noteq> [])"

definition validate_username :: "database \<Rightarrow> string option \<Rightarrow> field_error list" where
  "validate_username db d =
     (case d of
        None \<Rightarrow> []
      | Some name \<Rightarrow>
          (case user_by_name db name of
             None \<Rightarrow> []
           | Some u \<Rightarrow>
               [Message ''That username is already taken. Please choose a different one.'']))"

text \<open>
  Each field runs its validators in order; a failing \<open>DataRequired\<close> stops the
  field's chain, so the inline \<open>validate_username\<close> and \<open>EqualTo\<close> run only after it
  passed.  Every field is validated, whatever the others gave.
\<close>

definition username_errors :: "database \<Rightarrow> request \<Rightarrow> field_error list" where
  "username_errors db req =
     (let d = field_data req ''username''
      in if \<not> data_required d then [Required] else validate_username db d)"

definition password_errors :: "request \<Rightarrow> field_error list" where
  "password_errors req =
     (if \<not> data_required (field_data req ''password'') then [Required] else [])"

definition confirm_password_errors :: "request \<Rightarrow> field_error list" where
  "confirm_password_errors req =
     (let d = field_data req ''confirm_password''
      in if \<not> data_required d then [Required]
         else if d \<noteq> field_data req ''password'' then [NotEqualTo ''password'']
         else [])"

definition csrf_errors :: "request \<Rightarrow> field_error list" where
  "csrf_errors req = (if csrf_valid req then [] else [CsrfFailed])"

definition form_errors :: "database \<Rightarrow> request \<Rightarrow> (string \<times> field_error) list" where
  "form_errors db req =
     map (Pair ''username'') (username_errors db req)
     @ map (Pair ''password'') (password_errors req)
     @ map (Pair ''confirm_password'') (confirm_password_errors req)
     @ map (Pair ''csrf_token'') (csrf_errors req)"

definition validate_on_submit :: "database \<Rightarrow> request \<Rightarrow> bool" where
  "validate_on_submit db req = (req_method req = POST \<and> form_errors db req = [])"

text \<open>
  The errors the re-rendered form shows: none when the form was not submitted.
\<close>

definition shown_errors :: "database \<Rightarrow> request \<Rightarrow> (string \<times> field_error) list" where
  "shown_errors db req = (if req_method req = POST then form_errors db req else [])"

section \<open>Writes\<close>

text \<open>
  \<open>username\<close> is declared unique (line 42): the insert fails when the name is there.
\<close>

definition insert_user :: "database \<Rightarrow> string \<Rightarrow> string \<Rightarrow> error + database" where
  "insert_user db name hashed =
     (if user_by_name db name \<noteq> None then Inl IntegrityError
      else Inr (db\<lparr>user_table := user_table db @
             [\<lparr>user_id = next_id (map user_id (user_table db)),
               username = name, password_hash = hashed\<rparr>]\<rparr>))"

text \<open>
  The new row and the association rows of the categories given to the relationship.
\<close>

definition insert_article :: "database \<Rightarrow> article \<Rightarrow> category list \<Rightarrow> database" where
  "insert_article db a cats =
     db\<lparr>article_table := article_table db @ [a],
        article_categories := article_categories db
          @ map (\<lambda>c. (article_id a, category_id c)) cats\<rparr>"

definition update_article :: "database \<Rightarrow> article \<Rightarrow> database" where
  "update_article db a =
     db\<lparr>article_table :=
          map (\<lambda>x. if article_id x = article_id a then a else x) (article_table db)\<rparr>"

text \<open>
  Deleting through the ORM removes the row and, through the \<open>secondary\<close> relationship,
  the article's association rows.
\<close>

definition delete_row :: "database \<Rightarrow> nat \<Rightarrow> database" where
  "delete_row db aid =
     db\<lparr>article_table := filter (\<lambda>x. article_id x \<noteq> aid) (article_table db),
        article_categories := filter (\<lambda>r. fst r \<noteq> aid) (article_categories db)\<rparr>"

section \<open>Authentication gate (lines 108--117)\<close>

definition unauthorized :: "database \<Rightarrow> request \<Rightarrow> outcome" where
  "unauthorized db req =
     respond db req (Redirect Home) [flash ''You need to be logged in to view that page.'']"

definition login_required ::
  "database \<Rightarrow> request \<Rightarrow> (user \<Rightarrow> error + outcome) \<Rightarrow> error + outcome" where
  "login_required db req view =
     (case current_user db req of
        None \<Rightarrow> Inr (unauthorized db req)
      | Some u \<Rightarrow> view u)"

text \<open>
  \<open>User\<close> (lines 40--49) and \<open>UserMixin\<close> define no attribute \<open>is_admin\<close>: reading it
  raises.
\<close>

definition is_admin :: "user \<Rightarrow> error + bool" where
  "is_admin u = Inl AttributeError"

text \<open>
  \<open>current_user.username == article.author or current_user.is_admin\<close>: the right
  operand is evaluated only when the left one is false.
\<close>

definition author_or_admin :: "user \<Rightarrow> article \<Rightarrow> error + bool" where
  "author_or_admin u a = (if username u = author a then Inr True else is_admin u)"

section \<open>Handlers\<close>

definition article_types :: "string list" where
  "article_types = [''Hack'', ''Leak'', ''News'', ''Opinion'', ''Other'']"

text \<open>
  Lines 120--133.  After a successful validation both fields hold data, so the last
  branch of the case, hashing a password that is not there, is never taken.
\<close>

definition register :: "env \<Rightarrow> database \<Rightarrow> request \<Rightarrow> error + outcome" where
  "register e db req =
     (if current_user db req \<noteq> None then Inr (respond db req (Redirect Home) [])
      else if validate_on_submit db req then
        (case (field_data req ''username'', field_data req ''password'') of
           (Some name, Some password) \<Rightarrow>
             (case insert_user db name (generate_password_hash e password) of
                Inl x \<Rightarrow> Inl x
              | Inr db' \<Rightarrow>
                  Inr (respond db' req (Redirect Login)
                    [(''success'',
                      ''Your account has been created! You are now able to log in'')]))
         | _ \<Rightarrow> Inl AttributeError)
      else Inr (respond db req (Render (RegisterHtml (shown_errors db req))) []))"

definition login :: "env \<Rightarrow> database \<Rightarrow> request \<Rightarrow> error + outcome" where
  "login e db req =
     (if req_method req = POST then
        (case form_get (form req) ''username'' of Inl x \<Rightarrow> Inl x | Inr name \<Rightarrow>
        (case form_get (form req) ''password'' of Inl x \<Rightarrow> Inl x | Inr password \<Rightarrow>
           (case user_by_name db name of
              Some u \<Rightarrow>
                if check_password_hash e (password_hash u) password
                then Inr ((respond db req (Redirect Home) [])\<lparr>session_after := Some (user_id u)\<rparr>)
                else Inr (respond db req (Render LoginHtml) [flash ''Invalid username or password''])
            | None \<Rightarrow>
                Inr (respond db req (Render LoginHtml) [flash ''Invalid username or password'']))))
      else Inr (respond db req (Render LoginHtml) []))"

definition logout :: "database \<Rightarrow> request \<Rightarrow> error + outcome" where
  "logout db req =
     login_required db req
       (\<lambda>u. Inr ((respond db req (Redirect Home) [])\<lparr>session_after := None\<rparr>))"

text \<open>
  Newest first, articles of one publish date staying in row order; \<open>content_html\<close>
  is computed for the page and not stored.
\<close>

definition home_listing :: "env \<Rightarrow> database \<Rightarrow> (article \<times> string) list" where
  "home_listing e db =
     map (\<lambda>a. (a, markdown e (content a)))
       (rev (sort_key publish_date (rev (article_table db))))"

definition home :: "env \<Rightarrow> database \<Rightarrow> request \<Rightarrow> error + outcome" where
  "home e db req = Inr (respond db req (Render (HomeHtml (home_listing e db))) [])"

text \<open>
  Lines 199--201: the rows of \<open>category\<close> whose id is among the submitted values.
\<close>

definition select_categories :: "env \<Rightarrow> database \<Rightarrow> string list \<Rightarrow> category list" where
  "select_categories e db selected_category_ids =
     filter (\<lambda>c. category_id c \<in> set (List.map_filter (id_of_text e) selected_category_ids))
       (category_table db)"

definition publish :: "env \<Rightarrow> database \<Rightarrow> request \<Rightarrow> error + outcome" where
  "publish e db req =
     login_required db req (\<lambda>u.
       if req_method req = POST then
         (case form_get (form req) ''title'' of Inl x \<Rightarrow> Inl x | Inr article_title \<Rightarrow>
         (case form_get (form req) ''content'' of Inl x \<Rightarrow> Inl x | Inr article_content \<Rightarrow>
         (let article_country = str_join '', '' (getlist (form req) ''countries'') in
         (case form_get (form req) ''type'' of Inl x \<Rightarrow> Inl x | Inr article_type' \<Rightarrow>
         (case form_get (form req) ''download_link'' of Inl x \<Rightarrow> Inl x | Inr article_download_link \<Rightarrow>
         (let selected_categories = select_categories e db (getlist (form req) ''categories'') in
         (case form_get (form req) ''source'' of Inl x \<Rightarrow> Inl x | Inr article_source \<Rightarrow>
            Inr (respond
              (insert_article db
                 \<lparr>article_id = next_id (map article_id (article_table db)),
                  title = article_title, content = article_content,
                  author = username u, publish_date = utcnow e,
                  country = Some article_country,
                  download_link = article_download_link,
                  article_type = article_type', source = article_source\<rparr>
                 selected_categories)
              req (Redirect Home) [flash ''Article published successfully.'']))))))))
       else Inr (respond db req
              (Render (PublishHtml (category_table db) (country_names e) article_types)) []))"

definition article_view :: "env \<Rightarrow> database \<Rightarrow> request \<Rightarrow> nat \<Rightarrow> error + outcome" where
  "article_view e db req aid =
     (case get_or_404 db aid of
        Inl x \<Rightarrow> Inl x
      | Inr a \<Rightarrow> Inr (respond db req (Render (ArticleHtml a (markdown e (content a)))) []))"

text \<open>
  Line 251: \<open>article.country.split(", ") if article.country else []\<close>.
\<close>

definition selected_countries :: "article \<Rightarrow> error + string list" where
  "selected_countries a =
     (case country a of
        None \<Rightarrow> Inr []
      | Some s \<Rightarrow> if s = [] then Inr [] else str_split '', '' s)"

definition edit_article :: "env \<Rightarrow> database \<Rightarrow> request \<Rightarrow> nat \<Rightarrow> error + outcome" where
  "edit_article e db req aid =
     login_required db req (\<lambda>u.
       (case get_or_404 db aid of Inl x \<Rightarrow> Inl x | Inr a \<Rightarrow>
       (case author_or_admin u a of Inl x \<Rightarrow> Inl x | Inr allowed \<Rightarrow>
         if \<not> allowed then
           Inr (respond db req (Redirect Home)
                  [flash ''You do not have permission to edit this article.''])
         else if req_method req = POST then
           (case form_get (form req) ''title'' of Inl x \<Rightarrow> Inl x | Inr t \<Rightarrow>
           (case form_get (form req) ''content'' of Inl x \<Rightarrow> Inl x | Inr c \<Rightarrow>
           (let article_countries = getlist (form req) ''countries'' in
           (case form_get (form req) ''type'' of Inl x \<Rightarrow> Inl x | Inr ty \<Rightarrow>
           (case form_get (form req) ''download_link'' of Inl x \<Rightarrow> Inl x | Inr dl \<Rightarrow>
              Inr (respond
                (update_article db
                   (a\<lparr>title := t, content := c,
                      country := Some (str_join '', '' article_countries),
                      article_type := ty, download_link := dl\<rparr>))
                req (Redirect (ArticlePage aid)) [flash ''Article updated successfully.'']))))))
         else
           (case selected_countries a of Inl x \<Rightarrow> Inl x | Inr sel \<Rightarrow>
              Inr (respond db req
                (Render (EditHtml a (country_names e) sel article_types)) [])))))"

definition source_listing :: "database \<Rightarrow> string \<Rightarrow> article list" where
  "source_listing db src = filter (\<lambda>a. source a = src) (article_table db)"

definition articles_by_source :: "database \<Rightarrow> request \<Rightarrow> string \<Rightarrow> error + outcome" where
  "articles_by_source db req src =
     Inr (respond db req (Render (SourceArticlesHtml (source_listing db src) src)) [])"

text \<open>
  The route accepts POST only, so the handler does not look at the method.
\<close>

definition delete_article :: "database \<Rightarrow> request \<Rightarrow> nat \<Rightarrow> error + outcome" where
  "delete_article db req aid =
     login_required db req (\<lambda>u.
       (case get_or_404 db aid of Inl x \<Rightarrow> Inl x | Inr a \<Rightarrow>
       (case author_or_admin u a of Inl x \<Rightarrow> Inl x | Inr allowed \<Rightarrow>
         if \<not> allowed then
           Inr (respond db req (Redirect Home)
                  [flash ''You do not have permission to delete this article.''])
         else
           Inr (respond (delete_row db aid) req (Redirect Home)
                  [flash ''Article deleted successfully.'']))))"

text \<open>
  Lines 285--288: whatever the exception, the answer is the same text with status 500.
\<close>

definition handle_exception :: "error \<Rightarrow> body" where
  "handle_exception x = Plain ''An internal error occurred'' 500"

section \<open>A small installation, for concrete runs\<close>

definition example_env :: env where
  "example_env =
     \<lparr>generate_password_hash = (\<lambda>p. ''pbkdf2$'' @ p),
      check_password_hash = (\<lambda>h p. h = ''pbkdf2$'' @ p),
      markdown = (\<lambda>s. s),
      country_names = [''France'', ''Germany'', ''Korea, Republic of''],
      utcnow = 20,
      id_of_text = map_of [(''1'', 1), (''2'', 2), (''3'', 3)]\<rparr>"

definition alice :: user where
  "alice = \<lparr>user_id = 1, username = ''alice'', password_hash = ''pbkdf2$wonder''\<rparr>"

definition bob :: user where
  "bob = \<lparr>user_id = 2, username = ''bob'', password_hash = ''pbkdf2$builder''\<rparr>"

definition security :: category where
  "security = \<lparr>category_id = 1, category_name = ''Security''\<rparr>"

definition politics :: category where
  "politics = \<lparr>category_id = 2, category_name = ''Politics''\<rparr>"

definition breach :: article where
  "breach =
     \<lparr>article_id = 1, title = ''Breach'', content = ''# Breach'', author = ''alice'',
      publish_date = 10, country = Some ''France, Germany'',
      download_link = ''http://files/1'', article_type = ''Leak'', source = ''wire''\<rparr>"

definition example_db :: database where
  "example_db =
     \<lparr>user_table = [alice, bob], category_table = [security, politics],
      article_table = [breach], article_categories = [(1, 1)]\<rparr>"

definition example_request ::
  "http_method \<Rightarrow> (string \<times> string) list \<Rightarrow> nat option \<Rightarrow> request" where
  "example_request m f uid = \<lparr>req_method = m, form = f, session_user_id = uid, csrf_valid = True\<rparr>"

definition edit_form :: "(string \<times> string) list" where
  "edit_form =
     [(''title'', ''Breach, revised''), (''content'', ''text''), (''countries'', ''Spain''),
      (''type'', ''Rumour''), (''download_link'', ''http://files/2''),
      (''source'', ''blog''), (''categories'', ''2'')]"

definition publish_form :: "string list \<Rightarrow> (string \<times> string) list" where
  "publish_form names =
     [(''title'', ''Outage''), (''content'', ''text'')] @ map (Pair ''countries'') names @
     [(''type'', ''Rumour''), (''download_link'', ''http://files/3''),
      (''categories'', ''2''), (''categories'', ''7''), (''categories'', ''x''),
      (''source'', ''blog'')]"

definition register_form :: "string \<Rightarrow> string \<Rightarrow> (string \<times> string) list" where
  "register_form name pw =
     [(''username'', name), (''password'', pw), (''confirm_password'', pw)]"


definition outage_request :: "string list \<Rightarrow> request" where
  "outage_request names = example_request POST (publish_form names) (Some 2)"

definition outage_published :: "string list \<Rightarrow> outcome" where
  "outage_published names = projr (publish example_env example_db (outage_request names))"

definition breach_edited :: outcome where
  "breach_edited =
     projr (edit_article example_env example_db (example_request POST edit_form (Some 1)) 1)"



section \<open>Lookups after a write\<close>

lemma next_id_above: "x \<in> set ids \<Longrightarrow> x < next_id ids"
  unfolding next_id_def by (induction ids) auto

lemma find_fresh_append:
  "\<forall>x\<in>set xs. \<not> P x \<Longrightarrow> P a \<Longrightarrow> find P (xs @ [a]) = Some a"
  by (induction xs) auto

lemma get_or_404_inserted:
  assumes "article_id a = next_id (map article_id (article_table db))"
  shows "get_or_404 (insert_article db a cats) (article_id a) = Inr a"
proof -
  have "\<forall>x\<in>set (article_table db). article_id x \<noteq> article_id a"
    using assms next_id_above [of _ "map article_id (article_table db)"] by fastforce
  then have "find (\<lambda>x. article_id x = article_id a) (article_table db @ [a]) = Some a"
    by (intro find_fresh_append) auto
  then show ?thesis by (simp add: get_or_404_def insert_article_def)
qed

lemma get_or_404_id: "get_or_404 db aid = Inr a \<Longrightarrow> article_id a = aid"
  by (auto simp: get_or_404_def find_Some_iff split: option.splits)

lemma find_map_replace:
  "find (\<lambda>x. f x = k) xs = Some a \<Longrightarrow> f b = k \<Longrightarrow>
   find (\<lambda>x. f x = k) (map (\<lambda>x. if f x = k then b else x) xs) = Some b"
  by (induction xs) (auto split: if_splits)

lemma get_or_404_updated:
  "get_or_404 db aid = Inr a \<Longrightarrow> article_id b = aid \<Longrightarrow>
   get_or_404 (update_article db b) aid = Inr b"
  using find_map_replace [of article_id aid "article_table db" a b]
  by (auto simp: get_or_404_def update_article_def split: option.splits)

lemma author_or_admin_eq:
  "author_or_admin u a = (if username u = author a then Inr True else Inl AttributeError)"
  by (simp add: author_or_admin_def is_admin_def)

lemma publish_post:
  assumes "publish e db req = Inr out" "req_method req = POST" "current_user db req = Some u"
  shows "\<exists>t c ty dl src.
           form_get (form req) ''title'' = Inr t \<and> form_get (form req) ''content'' = Inr c \<and>
           form_get (form req) ''type'' = Inr ty \<and>
           form_get (form req) ''download_link'' = Inr dl \<and>
           form_get (form req) ''source'' = Inr src \<and>
           out = respond
             (insert_article db
                \<lparr>article_id = next_id (map article_id (article_table db)),
                 title = t, content = c, author = username u, publish_date = utcnow e,
                 country = Some (str_join '', '' (getlist (form req) ''countries'')),
                 download_link = dl, article_type = ty, source = src\<rparr>
                (select_categories e db (getlist (form req) ''categories'')))
             req (Redirect Home) [flash ''Article published successfully.'']"
  using assms unfolding publish_def login_required_def
  by (auto simp: Let_def split: sum.splits)

lemma edit_post:
  assumes "edit_article e db req aid = Inr out" "body out = Redirect (ArticlePage aid)"
  shows "\<exists>u a t c ty dl.
           current_user db req = Some u \<and> get_or_404 db aid = Inr a \<and>
           username u = author a \<and> req_method req = POST \<and>
           form_get (form req) ''title'' = Inr t \<and> form_get (form req) ''content'' = Inr c \<and>
           form_get (form req) ''type'' = Inr ty \<and>
           form_get (form req) ''download_link'' = Inr dl \<and>
           out = respond
             (update_article db
                (a\<lparr>title := t, content := c,
                   country := Some (str_join '', '' (getlist (form req) ''countries'')),
                   article_type := ty, download_link := dl\<rparr>))
             req (Redirect (ArticlePage aid)) [flash ''Article updated successfully.'']"
  using assms unfolding edit_article_def login_required_def unauthorized_def
  by (auto simp: Let_def respond_def author_or_admin_eq split: sum.splits option.splits if_splits)

section \<open>Joining and splitting on the separator\<close>

lemma no_sep_tl: "\<not> sublist '', '' (c # cs) \<Longrightarrow> \<not> sublist '', '' cs"
  by (simp add: sublist_Cons_right)

lemma no_sep_not_prefix:
  "\<not> sublist '', '' (c # cs) \<Longrightarrow> \<not> prefix '', '' (c # cs @ '', '' @ rest)"
  by (cases cs) (auto simp: sublist_Cons_right)

lemma no_sep_not_prefix_end:
  "\<not> sublist '', '' (c # cs) \<Longrightarrow> \<not> prefix '', '' (c # cs)"
  by (cases cs) (auto simp: sublist_Cons_right)

lemma split_from_skip:
  "\<not> prefix sep (c # s) \<Longrightarrow> split_from sep acc (c # s) = split_from sep (c # acc) s"
  by simp

lemma split_from_piece:
  "\<not> sublist '', '' x \<Longrightarrow>
   split_from '', '' acc (x @ '', '' @ rest) = (rev acc @ x) # split_from '', '' [] rest"
proof (induction x arbitrary: acc)
  case Nil
  then show ?case by simp
next
  case (Cons c cs)
  have np: "\<not> prefix '', '' (c # cs @ '', '' @ rest)"
    using Cons.prems by (rule no_sep_not_prefix)
  have "split_from '', '' acc ((c # cs) @ '', '' @ rest)
        = split_from '', '' (c # acc) (cs @ '', '' @ rest)"
    using split_from_skip [OF np] by simp
  also have "\<dots> = (rev (c # acc) @ cs) # split_from '', '' [] rest"
    using Cons.IH [OF no_sep_tl [OF Cons.prems]] .
  finally show ?case by simp
qed

lemma split_from_last:
  "\<not> sublist '', '' x \<Longrightarrow> split_from '', '' acc x = [rev acc @ x]"
proof (induction x arbitrary: acc)
  case Nil
  then show ?case by simp
next
  case (Cons c cs)
  have np: "\<not> prefix '', '' (c # cs)"
    using Cons.prems by (rule no_sep_not_prefix_end)
  have "split_from '', '' acc (c # cs) = split_from '', '' (c # acc) cs"
    using np by (rule split_from_skip)
  also have "\<dots> = [rev (c # acc) @ cs]"
    using Cons.IH [OF no_sep_tl [OF Cons.prems]] .
  finally show ?case by simp
qed

lemma split_join:
  "list_all (\<lambda>x. \<not> sublist '', '' x) xs \<Longrightarrow> xs \<noteq> [] \<Longrightarrow>
   split_from '', '' [] (str_join '', '' xs) = xs"
proof (induction "'', ''" xs rule: str_join.induct)
  case 1
  then show ?case by simp
next
  case (2 x)
  then show ?case by (simp add: split_from_last)
next
  case (3 x y ys)
  then show ?case
    using split_from_piece [of x "[]" "str_join '', '' (y # ys)"] by simp
qed

section \<open>Registration\<close>

lemma user_by_name_None: "user_by_name db name = None \<Longrightarrow> name \<notin> set (map username (user_table db))"
  by (auto simp: user_by_name_def find_None_iff)

lemma user_by_name_Some:
  "name \<in> set (map username (user_table db)) \<Longrightarrow> \<exists>u. user_by_name db name = Some u"
  by (cases "user_by_name db name") (auto dest: user_by_name_None)

lemma validated_fields:
  assumes "validate_on_submit db req"
  shows "\<exists>name password. field_data req ''username'' = Some name \<and>
           field_data req ''password'' = Some password \<and> user_by_name db name = None"
proof -
  from assms have u: "username_errors db req = []" and p: "password_errors req = []"
    by (simp_all add: validate_on_submit_def form_errors_def)
  from u obtain name where n: "field_data req ''username'' = Some name"
    by (cases "field_data req ''username''")
       (auto simp: username_errors_def data_required_def Let_def split: if_splits)
  from u n have "user_by_name db name = None"
    by (auto simp: username_errors_def validate_username_def Let_def
             split: if_splits option.splits)
  moreover from p obtain password where "field_data req ''password'' = Some password"
    by (cases "field_data req ''password''")
       (auto simp: password_errors_def data_required_def split: if_splits)
  ultimately show ?thesis using n by blast
qed

lemma register_cases:
  "register e db req =
     (if current_user db req \<noteq> None then Inr (respond db req (Redirect Home) [])
      else if validate_on_submit db req then
        (case (field_data req ''username'', field_data req ''password'') of
           (Some name, Some password) \<Rightarrow>
              Inr (respond
                (db\<lparr>user_table := user_table db @
                   [\<lparr>user_id = next_id (map user_id (user_table db)), username = name,
                     password_hash = generate_password_hash e password\<rparr>]\<rparr>)
                req (Redirect Login)
                [(''success'', ''Your account has been created! You are now able to log in'')])
         | _ \<Rightarrow> Inl AttributeError)
      else Inr (respond db req (Render (RegisterHtml (shown_errors db req))) []))"
proof (cases "current_user db req = None \<and> validate_on_submit db req")
  case True
  then obtain name password where "field_data req ''username'' = Some name"
    "field_data req ''password'' = Some password" "user_by_name db name = None"
    using validated_fields by blast
  with True show ?thesis by (simp add: register_def insert_user_def)
next
  case False
  then show ?thesis by (auto simp: register_def)
qed

lemma duplicate_username_error:
  assumes "field_data req ''username'' = Some name" "name \<in> set (map username (user_table db))"
  shows "\<exists>err. (''username'', err) \<in> set (form_errors db req)"
proof -
  from assms(2) obtain u where "user_by_name db name = Some u"
    using user_by_name_Some by blast
  with assms(1) have "username_errors db req \<noteq> []"
    by (simp add: username_errors_def validate_username_def Let_def)
  then obtain err where "err \<in> set (username_errors db req)"
    by (cases "username_errors db req") auto
  then show ?thesis by (auto simp: form_errors_def)
qed


text \<open>
  C4, as stated, fails: bob is logged in and posts the registration form with the
  username of the existing user alice.  The answer is the redirect to the home page:
  no form is rendered and no field error is shown (no row is created either).
\<close>

theorem register_duplicate_logged_in:
  "current_user example_db (example_request POST (register_form ''alice'' ''pw'') (Some 2))
     = Some bob
   \<and> field_data (example_request POST (register_form ''alice'' ''pw'') (Some 2)) ''username''
     = Some (username alice)
   \<and> user_table example_db = [alice, bob]
   \<and> register example_env example_db
        (example_request POST (register_form ''alice'' ''pw'') (Some 2))
     = Inr \<lparr>body = Redirect Home, flashed = [], db_after = example_db,
            session_after = Some 2\<rparr>"
  by code_simp

text \<open>
  C4, amended. For every registration request whose username equals the username of an
  existing user, no new user row is created; when the requester is not logged in,
  validation fails and the form is rendered again with an error on the username field
  (a logged-in requester is redirected before the form is looked at).  Whatever the
  request, \<open>register\<close> returns, and the usernames of the user table remain free of
  duplicates after it.
\<close>

theorem register_duplicate_username:
  assumes "distinct (map username (user_table db))"
  shows "\<exists>out. register e db req = Inr out
     \<and> distinct (map username (user_table (db_after out)))
     \<and> (\<forall>name. field_data req ''username'' = Some name
               \<and> name \<in> set (map username (user_table db)) \<longrightarrow>
           db_after out = db \<and> \<not> validate_on_submit db req
           \<and> (current_user db req = None \<longrightarrow>
                body out = Render (RegisterHtml (form_errors db req))
                \<and> (\<exists>err. (''username'', err) \<in> set (form_errors db req))))"
proof (cases "current_user db req = None \<and> validate_on_submit db req")
  case True
  then obtain name password where f: "field_data req ''username'' = Some name"
    "field_data req ''password'' = Some password" "user_by_name db name = None"
    using validated_fields by blast
  from f(3) have fresh: "name \<notin> set (map username (user_table db))"
    by (rule user_by_name_None)
  show ?thesis
    using True f(1,2) fresh assms
    by (auto simp: register_cases respond_def)
next
  case False
  have nv: "\<not> validate_on_submit db req" if "field_data req ''username'' = Some name"
    "name \<in> set (map username (user_table db))" for name
    using duplicate_username_error [OF that] by (auto simp: validate_on_submit_def)
  have post: "req_method req = POST" if "field_data req ''username'' = Some name" for name
    using that by (auto simp: field_data_def split: if_splits)
  show ?thesis
  proof (cases "validate_on_submit db req")
    case True
    with False nv assms show ?thesis
      by (auto simp: register_cases respond_def)
  next
    case nvalid: False
    with assms duplicate_username_error [of req _ db] post show ?thesis
      by (auto simp: register_cases respond_def shown_errors_def)
  qed
qed

theorem register_duplicate_username_alice:
  "distinct (map username (user_table example_db))
   \<and> (\<exists>out. register example_env example_db
               (example_request POST (register_form ''alice'' ''pw'') None) = Inr out
        \<and> db_after out = example_db
        \<and> body out = Render (RegisterHtml
            [(''username'',
              Message ''That username is already taken. Please choose a different one.'')]))"
proof -
  let ?req = "example_request POST (register_form ''alice'' ''pw'') None"
  have d: "distinct (map username (user_table example_db))"
    by code_simp
  have f: "field_data ?req ''username'' = Some ''alice''"
    by code_simp
  have m: "''alice'' \<in> set (map username (user_table example_db))"
    by code_simp
  have p: "current_user example_db ?req = None"
    by code_simp
  have e: "form_errors example_db ?req =
      [(''username'',
        Message ''That username is already taken. Please choose a different one.'')]"
    by code_simp
  from register_duplicate_username [OF d, of example_env ?req] f m p
  obtain out where "register example_env example_db ?req = Inr out"
    "db_after out = example_db" "body out = Render (RegisterHtml (form_errors example_db ?req))"
    by blast
  with d e show ?thesis by auto
qed

text \<open>
  C9. A request to the register route by a requester who is logged in, whatever its
  method and form, is answered by the redirect to the home page: the database is the one
  before the request, and the registration form is neither validated nor rendered.
\<close>

theorem register_authenticated:
  assumes "current_user db req = Some u"
  shows "register e db req = Inr (respond db req (Redirect Home) [])"
  using assms by (simp add: register_def)

theorem register_authenticated_example:
  "current_user example_db (example_request POST (register_form ''carol'' ''pw'') (Some 1))
     = Some alice
   \<and> register example_env example_db (example_request POST (register_form ''carol'' ''pw'') (Some 1))
     = Inr \<lparr>body = Redirect Home, flashed = [], db_after = example_db, session_after = Some 1\<rparr>"
proof -
  let ?req = "example_request POST (register_form ''carol'' ''pw'') (Some 1)"
  have h: "current_user example_db ?req = Some alice"
    by code_simp
  have r: "respond example_db ?req (Redirect Home) []
     = \<lparr>body = Redirect Home, flashed = [], db_after = example_db, session_after = Some 1\<rparr>"
    by (simp add: respond_def example_request_def)
  from register_authenticated [OF h, of example_env] h r show ?thesis
    by simp
qed

section \<open>The authentication gate\<close>

text \<open>
  C6. A request to the publish route by a requester who is not logged in returns (it does
  not raise): the answer is the redirect to the home page with the flashed notice, and the
  database, so the article table, is unchanged.
\<close>

theorem publish_unauthenticated:
  assumes "current_user db req = None"
  shows "\<exists>out. publish e db req = Inr out \<and> body out = Redirect Home
     \<and> flashed out = [flash ''You need to be logged in to view that page.'']
     \<and> db_after out = db"
  using assms by (simp add: publish_def login_required_def unauthorized_def respond_def)

theorem publish_unauthenticated_example:
  "current_user example_db (example_request POST (publish_form [''France'']) None) = None
   \<and> (\<exists>out. publish example_env example_db
               (example_request POST (publish_form [''France'']) None) = Inr out
        \<and> body out = Redirect Home
        \<and> flashed out = [(''message'', ''You need to be logged in to view that page.'')]
        \<and> article_table (db_after out) = [breach])"
proof -
  have h: "current_user example_db (example_request POST (publish_form [''France'']) None) = None"
    by code_simp
  have a: "article_table example_db = [breach]"
    by code_simp
  from publish_unauthenticated [OF h, of example_env] h a show ?thesis
    by (auto simp: flash_def)
qed

section \<open>Author or admin\<close>

text \<open>
  For a logged-in requester who is not the author of an existing article, the edit and
  the delete handler raise at the read of \<open>is_admin\<close>: neither reaches its flash and
  redirect, and neither writes.
\<close>

lemma non_author_raises:
  assumes "current_user db req = Some u" "get_or_404 db aid = Inr a" "username u \<noteq> author a"
  shows "edit_article e db req aid = Inl AttributeError"
    and "delete_article db req aid = Inl AttributeError"
  using assms
  by (simp_all add: edit_article_def delete_article_def login_required_def author_or_admin_eq)

text \<open>
  C1. The run that contradicts the claim: bob is logged in and is not the author of the
  article; his edit request (POST or GET) and his delete request raise
  \<open>AttributeError\<close> at the read of \<open>is_admin\<close>, which the error handler answers
  with the status 500 text, where the claim has a redirect to the home page with a
  flashed message.
\<close>

theorem non_author_edit_and_delete_raise:
  "current_user example_db (example_request POST edit_form (Some 2)) = Some bob
   \<and> get_or_404 example_db 1 = Inr breach
   \<and> username bob \<noteq> author breach
   \<and> edit_article example_env example_db (example_request POST edit_form (Some 2)) 1
       = Inl AttributeError
   \<and> edit_article example_env example_db (example_request GET [] (Some 2)) 1
       = Inl AttributeError
   \<and> delete_article example_db (example_request POST [] (Some 2)) 1 = Inl AttributeError
   \<and> handle_exception AttributeError = Plain ''An internal error occurred'' 500"
  by code_simp

section \<open>Countries: stored joined, selected by splitting\<close>

lemma str_join_empty: "str_join sep xs = [] \<Longrightarrow> xs \<noteq> [] \<Longrightarrow> sep \<noteq> [] \<Longrightarrow> xs = [[]]"
  by (induction sep xs rule: str_join.induct) auto

lemma selected_countries_join:
  assumes "list_all (\<lambda>x. \<not> sublist '', '' x) xs"
    and "country a = Some (str_join '', '' xs)"
  shows "selected_countries a = Inr (if xs = [[]] then [] else xs)"
proof (cases "xs = [] \<or> xs = [[]]")
  case True
  with assms(2) show ?thesis by (auto simp: selected_countries_def)
next
  case False
  then have "str_join '', '' xs \<noteq> []"
    using str_join_empty [of "'', ''" xs] by auto
  with assms False show ?thesis
    by (simp add: selected_countries_def str_split_def split_join)
qed

lemma current_user_same_users:
  "user_table db' = user_table db \<Longrightarrow> session_user_id req' = session_user_id req \<Longrightarrow>
   current_user db' req' = current_user db req"
  by (simp add: current_user_def load_user_def split: option.splits)

text \<open>
  C3, as stated, fails: the one selected name \<open>Korea, Republic of\<close> is stored as it is
  and comes back from the edit form's split as two names, and the one selected empty
  name is stored as the empty string and comes back as no selection.
\<close>

theorem country_round_trip_fails:
  "getlist (form (outage_request [''Korea, Republic of''])) ''countries'' = [''Korea, Republic of'']
   \<and> map country (article_table (db_after (outage_published [''Korea, Republic of''])))
       = [Some ''France, Germany'', Some ''Korea, Republic of'']
   \<and> map selected_countries (article_table (db_after (outage_published [''Korea, Republic of''])))
       = [Inr [''France'', ''Germany''], Inr [''Korea'', ''Republic of'']]
   \<and> edit_article example_env (db_after (outage_published [''Korea, Republic of'']))
         (example_request GET [] (Some 2)) 2
       = Inr (respond (db_after (outage_published [''Korea, Republic of'']))
           (example_request GET [] (Some 2))
           (Render (EditHtml (last (article_table (db_after (outage_published [''Korea, Republic of'']))))
              (country_names example_env) [''Korea'', ''Republic of''] article_types)) [])
   \<and> getlist (form (outage_request [''''])) ''countries'' = ['''']
   \<and> map country (article_table (db_after (outage_published [''''])))
       = [Some ''France, Germany'', Some '''']
   \<and> map selected_countries (article_table (db_after (outage_published [''''])))
       = [Inr [''France'', ''Germany''], Inr []]"
  by code_simp

text \<open>
  C3, amended. For every list of selected country names of which none contains the
  separator \<open>", "\<close>, publishing stores the names joined with \<open>", "\<close> in the new
  article's \<open>country\<close>, and the edit form of that article, asked for by its author,
  has the original list as its selection, except that the list of the one empty name
  comes back as the empty selection.  The instance below is the list France, Germany,
  stored as \<open>France, Germany\<close>.
\<close>

theorem country_round_trip:
  assumes pub: "publish e db req = Inr out" "req_method req = POST" "current_user db req = Some u"
    and names: "list_all (\<lambda>x. \<not> sublist '', '' x) (getlist (form req) ''countries'')"
    and ed: "req_method req' = GET" "session_user_id req' = session_user_id req"
  shows "\<exists>a. get_or_404 (db_after out) (next_id (map article_id (article_table db))) = Inr a
      \<and> country a = Some (str_join '', '' (getlist (form req) ''countries''))
      \<and> edit_article e' (db_after out) req' (article_id a) =
          Inr (respond (db_after out) req'
            (Render (EditHtml a (country_names e')
               (if getlist (form req) ''countries'' = [[]] then []
                else getlist (form req) ''countries'')
               article_types)) [])"
proof -
  from publish_post [OF pub] obtain t c ty dl src where
    out: "out = respond
             (insert_article db
                \<lparr>article_id = next_id (map article_id (article_table db)),
                 title = t, content = c, author = username u, publish_date = utcnow e,
                 country = Some (str_join '', '' (getlist (form req) ''countries'')),
                 download_link = dl, article_type = ty, source = src\<rparr>
                (select_categories e db (getlist (form req) ''categories'')))
             req (Redirect Home) [flash ''Article published successfully.'']"
    by blast
  define a where "a = \<lparr>article_id = next_id (map article_id (article_table db)),
                 title = t, content = c, author = username u, publish_date = utcnow e,
                 country = Some (str_join '', '' (getlist (form req) ''countries'')),
                 download_link = dl, article_type = ty, source = src\<rparr>"
  have aid: "article_id a = next_id (map article_id (article_table db))"
    and auth: "author a = username u"
    and ctry: "country a = Some (str_join '', '' (getlist (form req) ''countries''))"
    by (simp_all add: a_def)
  have dba: "db_after out = insert_article db a (select_categories e db (getlist (form req) ''categories''))"
    using out by (simp add: respond_def a_def)
  have got: "get_or_404 (db_after out) (article_id a) = Inr a"
    unfolding dba using aid by (rule get_or_404_inserted)
  have cu: "current_user (db_after out) req' = Some u"
    using current_user_same_users [of "db_after out" db req' req] ed(2) pub(3)
    by (simp add: dba insert_article_def)
  have sel: "selected_countries a =
      Inr (if getlist (form req) ''countries'' = [[]] then []
           else getlist (form req) ''countries'')"
    using names ctry by (rule selected_countries_join)
  have "edit_article e' (db_after out) req' (article_id a) =
          Inr (respond (db_after out) req'
            (Render (EditHtml a (country_names e')
               (if getlist (form req) ''countries'' = [[]] then []
                else getlist (form req) ''countries'')
               article_types)) [])"
    unfolding edit_article_def login_required_def
    by (simp add: cu got author_or_admin_eq auth ed(1) sel)
  with got ctry aid show ?thesis by auto
qed

theorem country_round_trip_France_Germany:
  "\<exists>a. get_or_404 (db_after (outage_published [''France'', ''Germany''])) 2 = Inr a
      \<and> country a = Some ''France, Germany''
      \<and> edit_article example_env (db_after (outage_published [''France'', ''Germany'']))
           (example_request GET [] (Some 2)) 2 =
          Inr (respond (db_after (outage_published [''France'', ''Germany'']))
            (example_request GET [] (Some 2))
            (Render (EditHtml a (country_names example_env) [''France'', ''Germany'']
               article_types)) [])"
proof -
  let ?req = "outage_request [''France'', ''Germany'']"
  have h1: "publish example_env example_db ?req = Inr (outage_published [''France'', ''Germany''])"
    by code_simp
  have h2: "req_method ?req = POST"
    by code_simp
  have h3: "current_user example_db ?req = Some bob"
    by code_simp
  have h4: "list_all (\<lambda>x. \<not> sublist '', '' x) (getlist (form ?req) ''countries'')"
    by code_simp
  have h5: "getlist (form ?req) ''countries'' = [''France'', ''Germany'']"
    by code_simp
  have h6: "[''France'', ''Germany''] \<noteq> [[]]"
    by simp
  have n: "next_id (map article_id (article_table example_db)) = 2"
    by code_simp
  have j: "str_join '', '' [''France'', ''Germany''] = ''France, Germany''"
    by code_simp
  have s: "session_user_id (example_request GET [] (Some 2)) = session_user_id ?req"
    by code_simp
  have m: "req_method (example_request GET [] (Some 2)) = GET"
    by code_simp
  show ?thesis
    using country_round_trip [OF h1 h2 h3 h4 m s, of example_env] get_or_404_id h6
    unfolding h5 n j by fastforce
qed

section \<open>Categories of a published article\<close>

lemma categories_of_inserted:
  assumes fresh: "article_id a \<notin> fst ` set (article_categories db)"
    and sel: "cats = filter (\<lambda>c. category_id c \<in> S) (category_table db)"
  shows "categories_of (insert_article db a cats) (article_id a) = cats"
proof -
  have "((article_id a, category_id c) \<in> set (article_categories db)
          \<or> category_id c \<in> category_id ` set cats) = (category_id c \<in> S)"
    if "c \<in> set (category_table db)" for c
    using that fresh sel by force
  then show ?thesis
    unfolding categories_of_def insert_article_def sel
    by (auto simp: image_iff intro!: filter_cong)
qed

text \<open>
  The association table refers to existing articles only: publish, delete and edit keep
  it so.
\<close>

lemma association_rows_insert:
  assumes "fst ` set (article_categories db) \<subseteq> article_id ` set (article_table db)"
  shows "fst ` set (article_categories (insert_article db a cats))
           \<subseteq> article_id ` set (article_table (insert_article db a cats))"
proof -
  have "fst ` set (map (\<lambda>c. (article_id a, category_id c)) cats) \<subseteq> {article_id a}"
    by auto
  with assms show ?thesis
    unfolding insert_article_def by (simp add: image_Un) blast
qed

lemma update_article_ids:
  "article_id ` set (article_table (update_article db b)) = article_id ` set (article_table db)"
proof -
  have "map article_id (map (\<lambda>x. if article_id x = article_id b then b else x) xs)
          = map article_id xs" for xs
    by (induction xs) auto
  then have "set (map article_id (article_table (update_article db b)))
          = set (map article_id (article_table db))"
    by (simp add: update_article_def)
  then show ?thesis by simp
qed

lemma association_rows_publish:
  assumes "fst ` set (article_categories db) \<subseteq> article_id ` set (article_table db)"
    and "publish e db req = Inr out"
  shows "fst ` set (article_categories (db_after out))
           \<subseteq> article_id ` set (article_table (db_after out))"
proof (cases "\<exists>u. current_user db req = Some u \<and> req_method req = POST")
  case True
  then obtain u where "current_user db req = Some u" "req_method req = POST"
    by blast
  from publish_post [OF assms(2) this(2) this(1)]
  obtain a cats where "db_after out = insert_article db a cats"
    by (auto simp: respond_def)
  with association_rows_insert [OF assms(1)] show ?thesis by simp
next
  case False
  with assms(2) have "db_after out = db"
    by (auto simp: publish_def login_required_def unauthorized_def respond_def
             split: option.splits if_splits)
  with assms(1) show ?thesis by simp
qed

lemma association_rows_delete:
  assumes "fst ` set (article_categories db) \<subseteq> article_id ` set (article_table db)"
    and "delete_article db req aid = Inr out"
  shows "fst ` set (article_categories (db_after out))
           \<subseteq> article_id ` set (article_table (db_after out))"
proof -
  from assms(2) have "db_after out = db \<or> db_after out = delete_row db aid"
    by (auto simp: delete_article_def login_required_def unauthorized_def respond_def
             split: option.splits sum.splits if_splits)
  moreover have "fst ` set (article_categories (delete_row db aid))
           \<subseteq> article_id ` set (article_table (delete_row db aid))"
    using assms(1) unfolding delete_row_def by fastforce
  ultimately show ?thesis using assms(1) by metis
qed

lemma association_rows_edit:
  assumes "fst ` set (article_categories db) \<subseteq> article_id ` set (article_table db)"
    and "edit_article e db req aid = Inr out"
  shows "fst ` set (article_categories (db_after out))
           \<subseteq> article_id ` set (article_table (db_after out))"
proof (cases "body out = Redirect (ArticlePage aid)")
  case True
  from edit_post [OF assms(2) True] obtain b where "db_after out = update_article db b"
    by (auto simp: respond_def)
  with assms(1) update_article_ids [of db b] show ?thesis
    by (simp add: update_article_def)
next
  case False
  with assms(2) have "db_after out = db"
    by (auto simp: edit_article_def login_required_def unauthorized_def respond_def Let_def
             split: option.splits sum.splits if_splits)
  with assms(1) show ?thesis by simp
qed

text \<open>
  C8. A publish request by a logged-in user whose form has the five single-valued fields
  returns with the redirect to the home page, whatever was submitted as categories; the
  categories of the new article are exactly the rows of the category table whose id is
  among the submitted values, and a submitted value that is the id of no category adds
  nothing.  The association table is taken to refer to existing articles only, as it does
  after every publish and delete.
\<close>

theorem publish_categories:
  assumes "current_user db req = Some u" "req_method req = POST"
    and "form_get (form req) ''title'' = Inr t" "form_get (form req) ''content'' = Inr c"
      "form_get (form req) ''type'' = Inr ty" "form_get (form req) ''download_link'' = Inr dl"
      "form_get (form req) ''source'' = Inr src"
    and integrity: "fst ` set (article_categories db) \<subseteq> article_id ` set (article_table db)"
  shows "\<exists>out a. publish e db req = Inr out \<and> body out = Redirect Home
     \<and> get_or_404 (db_after out) (next_id (map article_id (article_table db))) = Inr a
     \<and> category_table (db_after out) = category_table db
     \<and> categories_of (db_after out) (article_id a) =
         filter (\<lambda>c. category_id c \<in>
                   set (List.map_filter (id_of_text e) (getlist (form req) ''categories'')))
           (category_table db)"
proof -
  define a where "a = \<lparr>article_id = next_id (map article_id (article_table db)),
                 title = t, content = c, author = username u, publish_date = utcnow e,
                 country = Some (str_join '', '' (getlist (form req) ''countries'')),
                 download_link = dl, article_type = ty, source = src\<rparr>"
  define cats where "cats = select_categories e db (getlist (form req) ''categories'')"
  have aid: "article_id a = next_id (map article_id (article_table db))"
    by (simp add: a_def)
  have pub: "publish e db req =
      Inr (respond (insert_article db a cats) req (Redirect Home)
             [flash ''Article published successfully.''])"
    using assms(1-7) by (simp add: publish_def login_required_def a_def cats_def)
  have got: "get_or_404 (insert_article db a cats) (article_id a) = Inr a"
    using aid by (rule get_or_404_inserted)
  have "article_id a \<notin> article_id ` set (article_table db)"
    using next_id_above [of _ "map article_id (article_table db)"] aid by fastforce
  with integrity have fresh: "article_id a \<notin> fst ` set (article_categories db)"
    by blast
  have "categories_of (insert_article db a cats) (article_id a) = cats"
    using fresh by (rule categories_of_inserted) (simp add: cats_def select_categories_def)
  with pub got aid show ?thesis
    by (simp add: respond_def cats_def select_categories_def insert_article_def)
qed

theorem publish_categories_example:
  "getlist (form (outage_request [''France''])) ''categories'' = [''2'', ''7'', ''x'']
   \<and> (\<exists>out a. publish example_env example_db (outage_request [''France'']) = Inr out
          \<and> body out = Redirect Home
          \<and> get_or_404 (db_after out) 2 = Inr a
          \<and> categories_of (db_after out) (article_id a) = [politics])"
proof -
  let ?req = "outage_request [''France'']"
  have h1: "current_user example_db ?req = Some bob" by code_simp
  have h2: "req_method ?req = POST" by code_simp
  have h3: "form_get (form ?req) ''title'' = Inr ''Outage''" by code_simp
  have h4: "form_get (form ?req) ''content'' = Inr ''text''" by code_simp
  have h5: "form_get (form ?req) ''type'' = Inr ''Rumour''" by code_simp
  have h6: "form_get (form ?req) ''download_link'' = Inr ''http://files/3''" by code_simp
  have h7: "form_get (form ?req) ''source'' = Inr ''blog''" by code_simp
  have h8: "fst ` set (article_categories example_db) \<subseteq> article_id ` set (article_table example_db)"
    by code_simp
  have g: "getlist (form ?req) ''categories'' = [''2'', ''7'', ''x'']" by code_simp
  have n: "next_id (map article_id (article_table example_db)) = 2" by code_simp
  have f: "filter (\<lambda>c. category_id c \<in>
                   set (List.map_filter (id_of_text example_env) [''2'', ''7'', ''x'']))
           (category_table example_db) = [politics]"
    by code_simp
  from publish_categories [OF h1 h2 h3 h4 h5 h6 h7 h8, of example_env] g
  show ?thesis unfolding n g f by blast
qed

section \<open>Deleting an article\<close>

lemma delete_row_article: "aid \<notin> article_id ` set (article_table (delete_row db aid))"
  by (auto simp: delete_row_def)

lemma delete_row_association: "aid \<notin> fst ` set (article_categories (delete_row db aid))"
  by (auto simp: delete_row_def)

lemma delete_row_home:
  "aid \<notin> (article_id \<circ> fst) ` set (home_listing e (delete_row db aid))"
  by (auto simp: delete_row_def home_listing_def)

lemma delete_row_source: "aid \<notin> article_id ` set (source_listing (delete_row db aid) src)"
  by (auto simp: delete_row_def source_listing_def)

lemma get_or_404_absent:
  "aid \<notin> article_id ` set (article_table db) \<Longrightarrow> get_or_404 db aid = Inl NotFound"
  by (auto simp: get_or_404_def find_None_iff split: option.splits)

text \<open>
  C7. When the requester is logged in, the article exists and the author-or-admin check
  passes, the delete request returns with the redirect to the home page; afterwards the
  article table has no row with that id, the association table has no row for it, and
  neither the home listing nor the listing of any source contains it.
\<close>

theorem delete_article_removes:
  assumes "current_user db req = Some u" "get_or_404 db aid = Inr a"
    "author_or_admin u a = Inr True"
  shows "\<exists>out. delete_article db req aid = Inr out \<and> body out = Redirect Home
     \<and> flashed out = [flash ''Article deleted successfully.'']
     \<and> get_or_404 (db_after out) aid = Inl NotFound
     \<and> aid \<notin> article_id ` set (article_table (db_after out))
     \<and> aid \<notin> fst ` set (article_categories (db_after out))
     \<and> aid \<notin> (article_id \<circ> fst) ` set (home_listing e (db_after out))
     \<and> (\<forall>src. aid \<notin> article_id ` set (source_listing (db_after out) src))"
proof -
  have "delete_article db req aid =
      Inr (respond (delete_row db aid) req (Redirect Home) [flash ''Article deleted successfully.''])"
    using assms by (simp add: delete_article_def login_required_def)
  then show ?thesis
    using get_or_404_absent [of aid "delete_row db aid"]
      delete_row_article [of aid db] delete_row_association [of aid db]
      delete_row_home [of aid e db] delete_row_source [of aid db]
    by (simp add: respond_def)
qed

theorem delete_article_removes_example:
  "current_user example_db (example_request POST [] (Some 1)) = Some alice
   \<and> get_or_404 example_db 1 = Inr breach
   \<and> author_or_admin alice breach = Inr True
   \<and> article_categories example_db = [(1, 1)]
   \<and> (\<exists>out. delete_article example_db (example_request POST [] (Some 1)) 1 = Inr out
         \<and> article_table (db_after out) = [] \<and> article_categories (db_after out) = []
         \<and> home_listing example_env (db_after out) = []
         \<and> source_listing (db_after out) ''wire'' = [])"
proof -
  let ?req = "example_request POST [] (Some 1)"
  have h1: "current_user example_db ?req = Some alice" by code_simp
  have h2: "get_or_404 example_db 1 = Inr breach" by code_simp
  have h3: "author_or_admin alice breach = Inr True" by code_simp
  have h4: "article_categories example_db = [(1, 1)]" by code_simp
  have d: "delete_article example_db ?req 1 =
     Inr \<lparr>body = Redirect Home, flashed = [flash ''Article deleted successfully.''],
          db_after = example_db\<lparr>article_table := [], article_categories := []\<rparr>,
          session_after = Some 1\<rparr>"
    by code_simp
  from delete_article_removes [OF h1 h2 h3, of example_env] h1 h2 h3 h4 d
  show ?thesis by (simp add: home_listing_def source_listing_def)
qed

section \<open>Editing an article\<close>

text \<open>
  C2, as stated, fails: the author's POST to the edit route succeeds and replaces the
  title, while the submitted source \<open>blog\<close> and the submitted category 2 change
  nothing: the article keeps the source \<open>wire\<close> and its one category, Security.
\<close>

theorem edit_keeps_source_and_categories:
  "edit_article example_env example_db (example_request POST edit_form (Some 1)) 1
     = Inr breach_edited
   \<and> body breach_edited = Redirect (ArticlePage 1)
   \<and> map title (article_table (db_after breach_edited)) = [''Breach, revised'']
   \<and> form_get edit_form ''source'' = Inr ''blog''
   \<and> map source (article_table (db_after breach_edited)) = [''wire'']
   \<and> getlist edit_form ''categories'' = [''2'']
   \<and> id_of_text example_env ''2'' = Some (category_id politics)
   \<and> categories_of example_db 1 = [security]
   \<and> categories_of (db_after breach_edited) 1 = [security]"
  by code_simp

text \<open>
  C2, amended. A successful POST to the edit route (the one answered by the redirect to
  the article's page) replaces title, content, country, article type and download link
  by the submitted values, the country being the submitted names joined with \<open>", "\<close>;
  id, author, publish date, source and the article's categories are unchanged.
\<close>

theorem edit_article_post_fields:
  assumes "edit_article e db req aid = Inr out" "body out = Redirect (ArticlePage aid)"
  shows "\<exists>a a'. req_method req = POST
     \<and> get_or_404 db aid = Inr a \<and> get_or_404 (db_after out) aid = Inr a'
     \<and> form_get (form req) ''title'' = Inr (title a')
     \<and> form_get (form req) ''content'' = Inr (content a')
     \<and> country a' = Some (str_join '', '' (getlist (form req) ''countries''))
     \<and> form_get (form req) ''type'' = Inr (article_type a')
     \<and> form_get (form req) ''download_link'' = Inr (download_link a')
     \<and> article_id a' = article_id a \<and> author a' = author a
     \<and> publish_date a' = publish_date a \<and> source a' = source a
     \<and> article_categories (db_after out) = article_categories db
     \<and> category_table (db_after out) = category_table db
     \<and> categories_of (db_after out) aid = categories_of db aid"
proof -
  from edit_post [OF assms] obtain u a t c ty dl where
    m: "req_method req = POST" and g: "get_or_404 db aid = Inr a"
    and f: "form_get (form req) ''title'' = Inr t" "form_get (form req) ''content'' = Inr c"
      "form_get (form req) ''type'' = Inr ty" "form_get (form req) ''download_link'' = Inr dl"
    and out: "out = respond
             (update_article db
                (a\<lparr>title := t, content := c,
                   country := Some (str_join '', '' (getlist (form req) ''countries'')),
                   article_type := ty, download_link := dl\<rparr>))
             req (Redirect (ArticlePage aid)) [flash ''Article updated successfully.'']"
    by blast
  define a' where "a' = a\<lparr>title := t, content := c,
                   country := Some (str_join '', '' (getlist (form req) ''countries'')),
                   article_type := ty, download_link := dl\<rparr>"
  have dba: "db_after out = update_article db a'"
    using out by (simp add: respond_def a'_def)
  have "article_id a' = aid"
    using get_or_404_id [OF g] by (simp add: a'_def)
  with g have "get_or_404 (db_after out) aid = Inr a'"
    unfolding dba by (rule get_or_404_updated)
  moreover have "article_categories (db_after out) = article_categories db"
    "category_table (db_after out) = category_table db"
    by (simp_all add: dba update_article_def)
  moreover from this have "categories_of (db_after out) aid = categories_of db aid"
    by (simp add: categories_of_def)
  ultimately show ?thesis
    using m g f by (auto simp: a'_def)
qed

theorem edit_article_post_fields_breach:
  "edit_article example_env example_db (example_request POST edit_form (Some 1)) 1
     = Inr breach_edited
   \<and> body breach_edited = Redirect (ArticlePage 1)
   \<and> get_or_404 (db_after breach_edited) 1 =
       Inr \<lparr>article_id = 1, title = ''Breach, revised'', content = ''text'', author = ''alice'',
            publish_date = 10, country = Some ''Spain'', download_link = ''http://files/2'',
            article_type = ''Rumour'', source = ''wire''\<rparr>
   \<and> article_categories (db_after breach_edited) = [(1, 1)]"
proof -
  let ?req = "example_request POST edit_form (Some 1)"
  have h1: "edit_article example_env example_db ?req 1 = Inr breach_edited"
    by code_simp
  have h2: "body breach_edited = Redirect (ArticlePage 1)"
    by code_simp
  have g: "get_or_404 example_db 1 = Inr breach"
    by code_simp
  have f: "form_get (form ?req) ''title'' = Inr ''Breach, revised''"
    "form_get (form ?req) ''content'' = Inr ''text''"
    "str_join '', '' (getlist (form ?req) ''countries'') = ''Spain''"
    "form_get (form ?req) ''type'' = Inr ''Rumour''"
    "form_get (form ?req) ''download_link'' = Inr ''http://files/2''"
    by code_simp+
  have c: "article_categories example_db = [(1, 1)]"
    by code_simp
  from edit_article_post_fields [OF h1 h2] obtain a' where
    "get_or_404 (db_after breach_edited) 1 = Inr a'"
    "title a' = ''Breach, revised''" "content a' = ''text''" "country a' = Some ''Spain''"
    "article_type a' = ''Rumour''" "download_link a' = ''http://files/2''"
    "article_id a' = article_id breach" "author a' = author breach"
    "publish_date a' = publish_date breach" "source a' = source breach"
    "article_categories (db_after breach_edited) = [(1, 1)]"
    unfolding g f c by auto
  then show ?thesis
    using h1 h2 by (cases a') (simp add: breach_def)
qed

section \<open>Article type\<close>

text \<open>
  C10. For every string submitted as the type, by a logged-in user with the other
  single-valued fields present: publish stores the article with exactly that string as
  its article type, and so does the edit of an article by its author.  No membership in
  the five offered labels is asked for; the instance below submits \<open>Rumour\<close>.
\<close>

theorem article_type_verbatim:
  assumes "current_user db req = Some u" "req_method req = POST"
    and "form_get (form req) ''title'' = Inr t" "form_get (form req) ''content'' = Inr c"
      "form_get (form req) ''download_link'' = Inr dl"
    and "form_get (form req) ''type'' = Inr ty"
  shows "(\<forall>src. form_get (form req) ''source'' = Inr src \<longrightarrow>
            (\<exists>out a. publish e db req = Inr out \<and> body out = Redirect Home
               \<and> get_or_404 (db_after out) (next_id (map article_id (article_table db))) = Inr a
               \<and> article_type a = ty))
       \<and> (\<forall>a0. get_or_404 db aid = Inr a0 \<and> author a0 = username u \<longrightarrow>
            (\<exists>out a. edit_article e db req aid = Inr out \<and> body out = Redirect (ArticlePage aid)
               \<and> get_or_404 (db_after out) aid = Inr a \<and> article_type a = ty))"
proof (intro conjI allI impI)
  fix src
  assume s: "form_get (form req) ''source'' = Inr src"
  define a where "a = \<lparr>article_id = next_id (map article_id (article_table db)),
                 title = t, content = c, author = username u, publish_date = utcnow e,
                 country = Some (str_join '', '' (getlist (form req) ''countries'')),
                 download_link = dl, article_type = ty, source = src\<rparr>"
  have "publish e db req =
      Inr (respond (insert_article db a (select_categories e db (getlist (form req) ''categories'')))
             req (Redirect Home) [flash ''Article published successfully.''])"
    using assms s by (simp add: publish_def login_required_def a_def)
  moreover have "get_or_404 (insert_article db a (select_categories e db (getlist (form req) ''categories'')))
       (article_id a) = Inr a"
    by (rule get_or_404_inserted) (simp add: a_def)
  ultimately show "\<exists>out a. publish e db req = Inr out \<and> body out = Redirect Home
               \<and> get_or_404 (db_after out) (next_id (map article_id (article_table db))) = Inr a
               \<and> article_type a = ty"
    by (simp add: respond_def a_def)
next
  fix a0
  assume a0: "get_or_404 db aid = Inr a0 \<and> author a0 = username u"
  define a where "a = a0\<lparr>title := t, content := c,
                   country := Some (str_join '', '' (getlist (form req) ''countries'')),
                   article_type := ty, download_link := dl\<rparr>"
  have "edit_article e db req aid =
      Inr (respond (update_article db a) req (Redirect (ArticlePage aid))
             [flash ''Article updated successfully.''])"
    using assms a0 by (simp add: edit_article_def login_required_def author_or_admin_eq a_def)
  moreover have "get_or_404 (update_article db a) aid = Inr a"
    using a0 get_or_404_id [of db aid a0] by (intro get_or_404_updated [of db aid a0]) (auto simp: a_def)
  ultimately show "\<exists>out a. edit_article e db req aid = Inr out \<and> body out = Redirect (ArticlePage aid)
               \<and> get_or_404 (db_after out) aid = Inr a \<and> article_type a = ty"
    by (simp add: respond_def a_def)
qed

theorem article_type_verbatim_Rumour:
  "''Rumour'' \<notin> set article_types
   \<and> (\<exists>out a. publish example_env example_db (example_request POST edit_form (Some 1)) = Inr out
          \<and> get_or_404 (db_after out) 2 = Inr a \<and> article_type a = ''Rumour'')
   \<and> (\<exists>out a. edit_article example_env example_db (example_request POST edit_form (Some 1)) 1
            = Inr out
          \<and> get_or_404 (db_after out) 1 = Inr a \<and> article_type a = ''Rumour'')"
proof -
  let ?req = "example_request POST edit_form (Some 1)"
  have h1: "current_user example_db ?req = Some alice" by code_simp
  have h2: "req_method ?req = POST" by code_simp
  have h3: "form_get (form ?req) ''title'' = Inr ''Breach, revised''" by code_simp
  have h4: "form_get (form ?req) ''content'' = Inr ''text''" by code_simp
  have h5: "form_get (form ?req) ''download_link'' = Inr ''http://files/2''" by code_simp
  have h6: "form_get (form ?req) ''type'' = Inr ''Rumour''" by code_simp
  have s: "form_get (form ?req) ''source'' = Inr ''blog''" by code_simp
  have g: "get_or_404 example_db 1 = Inr breach \<and> author breach = username alice" by code_simp
  have n: "next_id (map article_id (article_table example_db)) = 2" by code_simp
  have r: "''Rumour'' \<notin> set article_types" by code_simp
  from article_type_verbatim [OF h1 h2 h3 h4 h5 h6, of example_env 1] s g r
  show ?thesis unfolding n by blast
qed

section \<open>Logging in after registering\<close>




lemma register_user_table:
  "register e db req = Inr out \<Longrightarrow> prefix (user_table db) (user_table (db_after out))"
  by (auto simp: register_cases respond_def split: if_splits option.splits)

lemma login_user_table: "login e db req = Inr out \<Longrightarrow> user_table (db_after out) = user_table db"
  by (auto simp: login_def respond_def split: if_splits sum.splits option.splits)

lemma publish_user_table:
  "publish e db req = Inr out \<Longrightarrow> user_table (db_after out) = user_table db"
  by (auto simp: publish_def login_required_def unauthorized_def respond_def insert_article_def
           split: if_splits sum.splits option.splits)

lemma edit_article_user_table:
  "edit_article e db req aid = Inr out \<Longrightarrow> user_table (db_after out) = user_table db"
  by (auto simp: edit_article_def login_required_def unauthorized_def respond_def
                 update_article_def
           split: if_splits sum.splits option.splits)

lemma delete_article_user_table:
  "delete_article db req aid = Inr out \<Longrightarrow> user_table (db_after out) = user_table db"
  by (auto simp: delete_article_def login_required_def unauthorized_def respond_def
                 delete_row_def
           split: if_splits sum.splits option.splits)



end
